theory Spec2Isabelle
  imports Main
begin

section \<open>Execution-trace extraction of \<open>execute_test\<close> (app\_modified.py)\<close>

text \<open>
  The development follows \<open>execute_test\<close> (lines 76-350 of \<open>src/app_modified.py\<close>):
  the scenario splitter (lines 84-94), the per-scenario collection loop (lines 102-243)
  with its three regular-expression searches, and the store into the session state
  (lines 245-257) guarded by the surrounding \<open>try/except\<close> (lines 77, 345-350).

  Text is a \<open>string\<close> (a list of characters), each character a code point below 256.
  The whitespace of \<open>str.strip\<close> is every such code point for which Python's
  \<open>str.isspace\<close> holds, and the digits of \<open>\d\<close> are the ASCII ones, the only decimal
  digits below 256.
\<close>

subsection \<open>Characters and the string methods the source calls\<close>

abbreviation newline :: char where
  "newline \<equiv> CHR 0x0A"

abbreviation quote :: char where
  "quote \<equiv> CHR 0x27"

text \<open>
  \<open>str.isspace\<close> on one character below 256: tab, LF, VT, FF, CR, FS, GS, RS, US, space,
  NEL (0x85) and the no-break space (0xA0).
\<close>

definition isspace :: "char \<Rightarrow> bool" where
  "isspace c \<longleftrightarrow> c \<in> {CHR 0x09, CHR 0x0A, CHR 0x0B, CHR 0x0C, CHR 0x0D,
                      CHR 0x1C, CHR 0x1D, CHR 0x1E, CHR 0x1F, CHR 0x20,
                      CHR 0x85, CHR 0xA0}"

text \<open>\<open>s.strip()\<close>: leading and trailing whitespace removed.\<close>

definition strip :: "string \<Rightarrow> string" where
  "strip s = rev (dropWhile isspace (rev (dropWhile isspace s)))"

text \<open>
  \<open>match_literal p s\<close> reads the literal \<open>p\<close> at the start of \<open>s\<close> and returns what
  follows it; \<open>startswith\<close> is its success.
\<close>

fun match_literal :: "string \<Rightarrow> string \<Rightarrow> string option" where
  "match_literal [] s = Some s"
| "match_literal (p # ps) [] = None"
| "match_literal (p # ps) (c # cs) = (if p = c then match_literal ps cs else None)"

definition startswith :: "string \<Rightarrow> string \<Rightarrow> bool" where
  "startswith s p \<longleftrightarrow> match_literal p s \<noteq> None"

text \<open>\<open>s.split("\n")\<close>: always at least one piece; \<open>"".split("\n") == [""]\<close>.\<close>

fun split_lines :: "string \<Rightarrow> string list" where
  "split_lines [] = [[]]"
| "split_lines (c # cs) =
     (if c = newline then [] # split_lines cs
      else (case split_lines cs of
              [] \<Rightarrow> [[c]]
            | l # ls \<Rightarrow> (c # l) # ls))"

text \<open>\<open>"\n".join(xs)\<close>.\<close>

fun join_lines :: "string list \<Rightarrow> string" where
  "join_lines [] = []"
| "join_lines [x] = x"
| "join_lines (x # y # zs) = x @ newline # join_lines (y # zs)"

subsection \<open>Scenario splitter (lines 84-94)\<close>

text \<open>
  The loop state is the pair \<open>(scenarios, current_scenario)\<close>. A Python list is
  truthy exactly when it is not empty.
\<close>

definition is_scenario_line :: "string \<Rightarrow> bool" where
  "is_scenario_line line \<longleftrightarrow> startswith (strip line) ''Scenario:''"

definition split_step :: "string list \<times> string list \<Rightarrow> string \<Rightarrow> string list \<times> string list" where
  "split_step st line =
     (case st of (scenarios, current_scenario) \<Rightarrow>
        if is_scenario_line line then
          ((if current_scenario \<noteq> [] then scenarios @ [join_lines current_scenario]
            else scenarios),
           [line])
        else if current_scenario \<noteq> [] then (scenarios, current_scenario @ [line])
        else (scenarios, current_scenario))"

definition split_scenarios :: "string \<Rightarrow> string list" where
  "split_scenarios steps =
     (case foldl split_step ([], []) (split_lines steps) of
        (scenarios, current_scenario) \<Rightarrow>
          if current_scenario \<noteq> [] then scenarios @ [join_lines current_scenario]
          else scenarios)"

subsection \<open>Python values and the agent's history object\<close>

text \<open>
  The values that flow through the loop: \<open>None\<close>, integers, strings and dictionaries
  (key/value pairs in insertion order).
\<close>

datatype pyval = PNone | PInt int | PStr string | PDict "(string \<times> pyval) list"

text \<open>
  One entry of \<open>history.model_actions()\<close> is a dictionary: action keys, each bound to
  its parameter dictionary, and the key \<open>"interacted_element"\<close>. For the latter the code
  tests membership and truthiness and then takes \<open>str(element_info)\<close>, so the model keeps
  whether the key is missing, bound to \<open>None\<close>, or bound to an element with that text.
\<close>

type_synonym params = "string \<rightharpoonup> pyval"

datatype interacted = Missing | NoneValue | Described string

record action_data =
  actions :: "string \<rightharpoonup> params"
  interacted_element :: interacted

text \<open>The methods of the history object that \<open>browser_agent.run()\<close> returns.\<close>

record agent_history =
  final_result :: pyval
  model_actions :: "action_data list"
  action_names :: "string list"
  urls :: "pyval list"
  extracted_content :: "pyval list"
  errors :: "pyval list"

text \<open>
  \<open>action_detail\<close> (lines 139-143) is a dictionary with the keys \<open>"name"\<close>, \<open>"index"\<close>
  and \<open>"element_details"\<close>; the inner dictionary has the optional keys \<open>"index"\<close> and
  \<open>"xpath"\<close>.
\<close>

type_synonym details = "string \<rightharpoonup> pyval"

record action_detail =
  detail_name :: string
  detail_index :: nat
  element_details :: details

text \<open>\<open>element_xpath_map\<close> (line 100): a dictionary from element index to XPath.\<close>

type_synonym xpath_map = "pyval \<rightharpoonup> string"

subsection \<open>The three regular-expression searches\<close>

text \<open>
  \<open>re.search(p, s)\<close> tries the pattern at every start position from the left and returns
  the first success. \<open>re_search m s\<close> does so for a pattern given by its anchored matcher
  \<open>m\<close>, which returns group 1.
\<close>

fun re_search :: "(string \<Rightarrow> 'a option) \<Rightarrow> string \<Rightarrow> 'a option" where
  "re_search m [] = m []"
| "re_search m (c # cs) =
     (case m (c # cs) of Some v \<Rightarrow> Some v | None \<Rightarrow> re_search m cs)"

text \<open>
  \<open>xpath='([^']+)'\<close> (lines 162-164 and 211-214): the literal, the longest run of
  characters other than the quote, which must not be empty, and a closing quote. A
  shorter run is followed by a character that is not a quote, so backtracking adds no
  match.
\<close>

definition match_xpath_attr :: "string \<Rightarrow> string option" where
  "match_xpath_attr s =
     (case match_literal (''xpath='' @ [quote]) s of
        None \<Rightarrow> None
      | Some rest \<Rightarrow>
          if takeWhile (\<lambda>c. c \<noteq> quote) rest \<noteq> [] \<and> dropWhile (\<lambda>c. c \<noteq> quote) rest \<noteq> []
          then Some (takeWhile (\<lambda>c. c \<noteq> quote) rest) else None)"

text \<open>
  \<open>The xpath of the element is (.+)\<close> (lines 232-234): the dot matches every character
  but the newline, and \<open>+\<close> is greedy, so group 1 is the rest of the line.
\<close>

definition match_xpath_phrase :: "string \<Rightarrow> string option" where
  "match_xpath_phrase s =
     (case match_literal ''The xpath of the element is '' s of
        None \<Rightarrow> None
      | Some rest \<Rightarrow>
          if takeWhile (\<lambda>c. c \<noteq> newline) rest \<noteq> []
          then Some (takeWhile (\<lambda>c. c \<noteq> newline) rest) else None)"

text \<open>
  \<open>element (\d+)\<close> (lines 238-240) and \<open>int(index_match.group(1))\<close> (line 242), on
  the digits 0 to 9. The conversion is total here: the interpreter's limit on the number of
  digits of one conversion is not part of the model.
\<close>

definition isdigit :: "char \<Rightarrow> bool" where
  "isdigit c \<longleftrightarrow> (48::nat) \<le> of_char c \<and> of_char c \<le> (57::nat)"

definition match_element_index :: "string \<Rightarrow> string option" where
  "match_element_index s =
     (case match_literal ''element '' s of
        None \<Rightarrow> None
      | Some rest \<Rightarrow>
          if takeWhile isdigit rest \<noteq> [] then Some (takeWhile isdigit rest) else None)"

definition int_of_digits :: "string \<Rightarrow> int" where
  "int_of_digits ds = foldl (\<lambda>n c. 10 * n + (of_char c - 48)) 0 ds"

subsection \<open>Element resolver: one raw action entry (lines 145-222)\<close>

text \<open>
  The guard \<open>"interacted_element" in action_data and action_data["interacted_element"]\<close>
  followed by \<open>str(element_info)\<close>.
\<close>

definition element_info :: "action_data \<Rightarrow> string option" where
  "element_info a = (case interacted_element a of Described s \<Rightarrow> Some s | _ \<Rightarrow> None)"

text \<open>The search on the element's text and the two writes of lines 165-170 and 215-222.\<close>

definition attach_from_element ::
  "action_data \<Rightarrow> pyval \<Rightarrow> xpath_map \<times> details \<Rightarrow> xpath_map \<times> details" where
  "attach_from_element a element_index st =
     (case st of (m, d) \<Rightarrow>
        (case element_info a of
           None \<Rightarrow> (m, d)
         | Some info \<Rightarrow>
             (case re_search match_xpath_attr info of
                None \<Rightarrow> (m, d)
              | Some xpath \<Rightarrow> (m(element_index \<mapsto> xpath), d(''xpath'' \<mapsto> PStr xpath)))))"

text \<open>Lines 146-170; \<open>dict.get("index")\<close> is \<open>None\<close> for a missing key.\<close>

definition discovery_action ::
  "action_data \<Rightarrow> params \<Rightarrow> xpath_map \<times> details \<Rightarrow> xpath_map \<times> details" where
  "discovery_action a action_params st =
     (case st of (m, d) \<Rightarrow>
        (let element_index = (case action_params ''index'' of None \<Rightarrow> PNone | Some v \<Rightarrow> v)
         in attach_from_element a element_index (m, d(''index'' \<mapsto> element_index))))"

text \<open>Lines 187-222: the body of the loop over the three interaction keys.\<close>

definition interaction_key ::
  "action_data \<Rightarrow> xpath_map \<times> details \<Rightarrow> string \<Rightarrow> xpath_map \<times> details" where
  "interaction_key a st key =
     (case st of (m, d) \<Rightarrow>
        (case actions a key of
           None \<Rightarrow> (m, d)
         | Some action_params \<Rightarrow>
             (case action_params ''index'' of
                None \<Rightarrow> (m, d)
              | Some element_index \<Rightarrow>
                  attach_from_element a element_index
                    (m, (case m element_index of
                           None \<Rightarrow> d(''index'' \<mapsto> element_index)
                         | Some known \<Rightarrow>
                             d(''index'' \<mapsto> element_index, ''xpath'' \<mapsto> PStr known))))))"

definition interaction_keys :: "string list" where
  "interaction_keys = [''input_text'', ''click_element'', ''perform_element_action'']"

text \<open>
  Lines 145-222 for one entry, from the map before it and the empty \<open>element_details\<close>
  of line 142: the map after it and the \<open>element_details\<close> of the record.
\<close>

definition resolve_action :: "action_data \<Rightarrow> xpath_map \<Rightarrow> xpath_map \<times> details" where
  "resolve_action a m =
     (case actions a ''get_xpath_of_element'' of
        Some action_params \<Rightarrow> discovery_action a action_params (m, Map.empty)
      | None \<Rightarrow>
          if list_ex (\<lambda>key. actions a key \<noteq> None) interaction_keys
          then foldl (interaction_key a) (m, Map.empty) interaction_keys
          else (m, Map.empty))"

subsection \<open>Trace collector: one scenario (lines 116-243)\<close>

text \<open>Lines 119-124: a bare string result becomes a \<open>{status, details}\<close> dictionary.\<close>

definition normalize_result :: "pyval \<Rightarrow> pyval" where
  "normalize_result result =
     (case result of
        PStr s \<Rightarrow> PDict [(''status'', PStr s), (''details'', PStr ''Execution completed'')]
      | _ \<Rightarrow> result)"

text \<open>Lines 132-136.\<close>

definition action_name :: "agent_history \<Rightarrow> nat \<Rightarrow> string" where
  "action_name h i =
     (if i < length (action_names h) then action_names h ! i else ''Unknown Action'')"

text \<open>
  One iteration of \<open>for i, action_data in enumerate(history.model_actions())\<close>
  (lines 131-224) on the pair \<open>(all_actions, element_xpath_map)\<close>.
\<close>

definition process_action ::
  "agent_history \<Rightarrow> action_detail list \<times> xpath_map \<Rightarrow> nat \<times> action_data
     \<Rightarrow> action_detail list \<times> xpath_map" where
  "process_action h st ia =
     (case st of (all_actions, m) \<Rightarrow>
        (case ia of (i, a) \<Rightarrow>
           (case resolve_action a m of (m', d) \<Rightarrow>
              (all_actions @
                 [\<lparr>detail_name = action_name h i, detail_index = i, element_details = d\<rparr>],
               m'))))"

text \<open>
  One iteration of \<open>for content in history.extracted_content()\<close> (lines 227-243) on the
  pair \<open>(all_extracted_content, element_xpath_map)\<close>.
\<close>

definition content_write :: "pyval \<Rightarrow> (pyval \<times> string) option" where
  "content_write content =
     (case content of
        PStr s \<Rightarrow>
          (case re_search match_xpath_phrase s of
             None \<Rightarrow> None
           | Some xpath \<Rightarrow>
               (case re_search match_element_index s of
                  None \<Rightarrow> None
                | Some ds \<Rightarrow> Some (PInt (int_of_digits ds), xpath)))
      | _ \<Rightarrow> None)"

definition process_content ::
  "pyval list \<times> xpath_map \<Rightarrow> pyval \<Rightarrow> pyval list \<times> xpath_map" where
  "process_content st content =
     (case st of (all_extracted_content, m) \<Rightarrow>
        (all_extracted_content @ [content],
         (case content_write content of
            None \<Rightarrow> m
          | Some (element_index, xpath) \<Rightarrow> m(element_index \<mapsto> xpath))))"

text \<open>
  The variables that live across the scenarios (lines 97-100), and \<open>history\<close>, which is
  unbound until the first scenario has run.
\<close>

record loop_state =
  all_results :: "pyval list"
  all_actions :: "action_detail list"
  all_extracted_content :: "pyval list"
  element_xpath_map :: xpath_map
  history :: "agent_history option"

definition initial_state :: loop_state where
  "initial_state =
     \<lparr>all_results = [], all_actions = [], all_extracted_content = [],
      element_xpath_map = Map.empty, history = None\<rparr>"

text \<open>The body of the scenario loop after the agent has returned \<open>h\<close> (lines 117-243).\<close>

definition process_history :: "agent_history \<Rightarrow> loop_state \<Rightarrow> loop_state" where
  "process_history h st =
     (case foldl (process_action h) (all_actions st, element_xpath_map st)
             (enumerate 0 (model_actions h)) of
        (acts, m1) \<Rightarrow>
          (case foldl process_content (all_extracted_content st, m1) (extracted_content h) of
             (contents, m2) \<Rightarrow>
               \<lparr>all_results = all_results st @ [normalize_result (final_result h)],
                all_actions = acts,
                all_extracted_content = contents,
                element_xpath_map = m2,
                history = Some h\<rparr>))"

subsection \<open>The run (lines 76-257 and 345-350)\<close>

text \<open>
  The automation agent is outside the program. \<open>agent k scenario\<close> is what lines
  104-116 do in the \<open>k\<close>-th iteration of a run, for the task built from \<open>scenario\<close>:
  building or running the agent raises, or \<open>browser_agent.run()\<close> returns a history
  object. The calls that only display or log (\<open>st.write\<close>, \<open>logger.debug\<close>) are left out.
\<close>

datatype exn = AgentError string | UnboundLocalError

type_synonym agent = "nat \<Rightarrow> string \<Rightarrow> exn + agent_history"

fun run_scenarios :: "agent \<Rightarrow> nat \<Rightarrow> string list \<Rightarrow> loop_state \<Rightarrow> exn + loop_state" where
  "run_scenarios agent k [] st = Inr st"
| "run_scenarios agent k (scenario # rest) st =
     (case agent k scenario of
        Inl e \<Rightarrow> Inl e
      | Inr h \<Rightarrow> run_scenarios agent (Suc k) rest (process_history h st))"

text \<open>
  The dictionary stored at \<open>st.session_state.history\<close> (lines 246-257), and the two
  session entries the function touches.
\<close>

record execution_record =
  er_urls :: "pyval list"
  er_action_names :: "string list"
  er_detailed_actions :: "action_detail list"
  er_element_xpaths :: xpath_map
  er_extracted_content :: "pyval list"
  er_errors :: "pyval list"
  er_model_actions :: "action_data list"
  er_execution_date :: string

record session =
  stored_history :: "execution_record option"
  execution_date :: "string option"

definition build_record :: "session \<Rightarrow> loop_state \<Rightarrow> agent_history \<Rightarrow> execution_record" where
  "build_record sess st h =
     \<lparr>er_urls = urls h,
      er_action_names = action_names h,
      er_detailed_actions = all_actions st,
      er_element_xpaths = element_xpath_map st,
      er_extracted_content = all_extracted_content st,
      er_errors = errors h,
      er_model_actions = model_actions h,
      er_execution_date =
        (case execution_date sess of None \<Rightarrow> ''Unknown'' | Some d \<Rightarrow> d)\<rparr>"

text \<open>
  \<open>execute_test\<close>: the session after the call and the exception that the handler of
  lines 345-350 caught, if any. After a loop that ran no scenario, line 247 reads the
  unbound \<open>history\<close>, which raises inside the \<open>try\<close>.
\<close>

definition execute_test :: "agent \<Rightarrow> string \<Rightarrow> session \<Rightarrow> session \<times> exn option" where
  "execute_test agent steps sess =
     (case run_scenarios agent 0 (split_scenarios steps) initial_state of
        Inl e \<Rightarrow> (sess, Some e)
      | Inr st \<Rightarrow>
          (case history st of
             None \<Rightarrow> (sess, Some UnboundLocalError)
           | Some h \<Rightarrow> (sess\<lparr>stored_history := Some (build_record sess st h)\<rparr>, None)))"

subsection \<open>Concrete inputs\<close>

text \<open>The extracted-content item of the specification's example.\<close>

definition xpath_item :: string where
  "xpath_item = ''The xpath of the element is //button[2], found near element 5''"

text \<open>Raw action entries: a navigation, a discovery, a click.\<close>

definition visit_action :: action_data where
  "visit_action =
     \<lparr>actions = [''go_to_url'' \<mapsto> [''url'' \<mapsto> PStr ''https://example.org'']],
      interacted_element = NoneValue\<rparr>"

definition discovery_example :: action_data where
  "discovery_example =
     \<lparr>actions = [''get_xpath_of_element'' \<mapsto> [''index'' \<mapsto> PInt 7]],
      interacted_element =
        Described (''...'' @ (''xpath='' @ [quote]) @ ''//div[@id=1]'' @ quote # ''...'')\<rparr>"

definition click_action :: action_data where
  "click_action =
     \<lparr>actions = [''click_element'' \<mapsto> [''index'' \<mapsto> PInt 7]],
      interacted_element = Described (''tag=button xpath='' @ quote # ''//div[2]'' @ [quote])\<rparr>"

text \<open>Discovery entries whose element text has the pattern twice, and with an empty value.\<close>

definition discovery_twice :: action_data where
  "discovery_twice =
     \<lparr>actions = [''get_xpath_of_element'' \<mapsto> [''index'' \<mapsto> PInt 7]],
      interacted_element =
        Described ((''xpath='' @ [quote] @ ''a'' @ [quote] @ '' '')
                   @ (''xpath='' @ [quote]) @ ''b'' @ quote # [])\<rparr>"

definition discovery_empty :: action_data where
  "discovery_empty =
     \<lparr>actions = [''get_xpath_of_element'' \<mapsto> [''index'' \<mapsto> PInt 7]],
      interacted_element = Described ([] @ (''xpath='' @ [quote]) @ [] @ quote # [])\<rparr>"

text \<open>An entry that carries two interaction keys, each with an index.\<close>

definition two_key_action :: action_data where
  "two_key_action =
     \<lparr>actions = [''input_text'' \<mapsto> [''index'' \<mapsto> PInt 3, ''text'' \<mapsto> PStr ''abc''],
                 ''click_element'' \<mapsto> [''index'' \<mapsto> PInt 4]],
      interacted_element = NoneValue\<rparr>"

text \<open>Two history objects, as two scenarios of one run return them.\<close>

definition first_history :: agent_history where
  "first_history =
     \<lparr>final_result = PStr ''Login succeeded'',
      model_actions = [visit_action, discovery_example],
      action_names = [''go_to_url'', ''get_xpath_of_element''],
      urls = [PStr ''https://example.org''],
      extracted_content = [PStr xpath_item],
      errors = [PNone, PNone]\<rparr>"

definition second_history :: agent_history where
  "second_history =
     \<lparr>final_result = PNone,
      model_actions = [click_action],
      action_names = [''click_element''],
      urls = [PStr ''https://example.org/next''],
      extracted_content = [PStr ''done''],
      errors = [PNone]\<rparr>"

text \<open>A run of two scenarios, one in which both agent runs return and one in which the second raises.\<close>

definition two_steps :: string where
  "two_steps =
     ''Scenario: A'' @ newline # ''step1'' @ newline # ''Scenario: B'' @ newline # ''step2''"

definition example_agent :: agent where
  "example_agent k scenario = (if k = 0 then Inr first_history else Inr second_history)"

definition failing_agent :: agent where
  "failing_agent k scenario =
     (if k = 0 then Inr first_history else Inl (AgentError ''Browser closed''))"

definition old_session :: session where
  "old_session = \<lparr>stored_history = None, execution_date = Some ''November 04, 2026''\<rparr>"

subsection \<open>Notions of the specification\<close>

text \<open>
  The loop state after the scenarios whose agent runs returned \<open>hs\<close>, in this order.
\<close>

definition collect :: "loop_state \<Rightarrow> agent_history list \<Rightarrow> loop_state" where
  "collect st hs = foldl (\<lambda>st h. process_history h st) st hs"

text \<open>
  The successful writes into ElementXPathMap in chronological order, after section 4.3 of
  the specification: a discovery entry writes \<open>(index, xpath)\<close> when its element text
  matches; an interaction entry writes, for each of its keys with an index, when the
  element text matches; a free-text item writes when both of its patterns are found. A run
  handles, scenario by scenario, the entries and then the items.
\<close>

definition apply_write :: "xpath_map \<Rightarrow> pyval \<times> string \<Rightarrow> xpath_map" where
  "apply_write m w = m(fst w \<mapsto> snd w)"

definition key_write :: "action_data \<Rightarrow> string \<Rightarrow> string \<Rightarrow> (pyval \<times> string) option" where
  "key_write a xpath key =
     (case actions a key of
        None \<Rightarrow> None
      | Some action_params \<Rightarrow>
          (case action_params ''index'' of
             None \<Rightarrow> None
           | Some element_index \<Rightarrow> Some (element_index, xpath)))"

definition entry_writes :: "action_data \<Rightarrow> (pyval \<times> string) list" where
  "entry_writes a =
     (case element_info a of
        None \<Rightarrow> []
      | Some info \<Rightarrow>
          (case re_search match_xpath_attr info of
             None \<Rightarrow> []
           | Some xpath \<Rightarrow>
               (case actions a ''get_xpath_of_element'' of
                  Some action_params \<Rightarrow>
                    [((case action_params ''index'' of None \<Rightarrow> PNone | Some v \<Rightarrow> v), xpath)]
                | None \<Rightarrow> List.map_filter (key_write a xpath) interaction_keys)))"

definition history_writes :: "agent_history \<Rightarrow> (pyval \<times> string) list" where
  "history_writes h =
     concat (map entry_writes (model_actions h))
     @ List.map_filter content_write (extracted_content h)"

definition write_log :: "agent_history list \<Rightarrow> (pyval \<times> string) list" where
  "write_log hs = concat (map history_writes hs)"

text \<open>
  The ActionRecords of a run, written out: the records of one scenario, from the map as
  it is when the scenario starts, each with its name, its index within the scenario and
  the \<open>element_details\<close> that the resolver gives it from the map left by the entries before
  it; and the records of all scenarios in order, each scenario starting from the map that
  the writes of the earlier ones have left.
\<close>

fun records_from ::
  "agent_history \<Rightarrow> xpath_map \<Rightarrow> nat \<Rightarrow> action_data list \<Rightarrow> action_detail list" where
  "records_from h m i [] = []"
| "records_from h m i (a # as) =
     \<lparr>detail_name = action_name h i, detail_index = i,
      element_details = snd (resolve_action a m)\<rparr>
     # records_from h (fst (resolve_action a m)) (Suc i) as"

fun run_records :: "xpath_map \<Rightarrow> agent_history list \<Rightarrow> action_detail list" where
  "run_records m [] = []"
| "run_records m (h # hs) =
     records_from h m 0 (model_actions h)
     @ run_records (foldl apply_write m (history_writes h)) hs"

text \<open>The \<open>{status, details}\<close> shape of a result.\<close>

definition structured :: "pyval \<Rightarrow> bool" where
  "structured r =
     (case r of PDict kvs \<Rightarrow> set (map fst kvs) = {''status'', ''details''} | _ \<Rightarrow> False)"

text \<open>
  The invariant of section 3 of the specification for one record at the moment it is
  appended: an \<open>xpath\<close> in \<open>element_details\<close> is the value that the map holds for the
  \<open>index\<close> in \<open>element_details\<close>.
\<close>

definition snapshot_consistent :: "xpath_map \<Rightarrow> details \<Rightarrow> bool" where
  "snapshot_consistent m d =
     (case d ''xpath'' of
        None \<Rightarrow> True
      | Some x \<Rightarrow>
          (case d ''index'' of
             None \<Rightarrow> False
           | Some element_index \<Rightarrow>
               (case m element_index of None \<Rightarrow> False | Some known \<Rightarrow> x = PStr known)))"

text \<open>The interaction keys of an entry whose parameters have an \<open>index\<close>.\<close>

definition indexed_keys :: "action_data \<Rightarrow> string list" where
  "indexed_keys a = filter (\<lambda>key. key_write a [] key \<noteq> None) interaction_keys"

section \<open>Properties\<close>

subsection \<open>Strings\<close>

lemma match_literal_append: "match_literal p (p @ r) = Some r"
  by (induction p) auto

lemma match_literal_Some: "match_literal p s = Some r \<Longrightarrow> s = p @ r"
  by (induction p s rule: match_literal.induct) (auto split: if_splits)

lemma split_lines_not_Nil: "split_lines s \<noteq> []"
  by (induction s) (auto split: list.splits)

lemma join_lines_Cons: "ls \<noteq> [] \<Longrightarrow> join_lines (l # ls) = l @ newline # join_lines ls"
  by (cases ls) auto

lemma join_split_lines: "join_lines (split_lines s) = s"
proof (induction s)
  case Nil
  show ?case by simp
next
  case (Cons c cs)
  show ?case
  proof (cases "c = newline")
    case True
    with Cons show ?thesis
      by (simp add: join_lines_Cons split_lines_not_Nil)
  next
    case False
    obtain l ls where sp: "split_lines cs = l # ls"
      using split_lines_not_Nil [of cs] by (cases "split_lines cs") auto
    have "join_lines ((c # l) # ls) = c # join_lines (l # ls)"
      by (cases ls) auto
    with False sp Cons show ?thesis by simp
  qed
qed

subsection \<open>Scenario splitter\<close>

lemma split_step_no_scenario:
  "\<forall>l \<in> set ls. \<not> is_scenario_line l \<Longrightarrow> foldl split_step (sc, []) ls = (sc, [])"
  by (induction ls) (auto simp: split_step_def)

text \<open>
  C1 (as the code has it). A line is added to \<open>current_scenario\<close> only once a
  \<open>Scenario:\<close> line has opened a block (line 91, \<open>elif current_scenario\<close>), so a text
  with no \<open>Scenario:\<close> line yields no block at all: the splitter returns the empty list.
\<close>

theorem split_no_scenario_empty:
  "\<forall>l \<in> set (split_lines steps). \<not> is_scenario_line l \<Longrightarrow> split_scenarios steps = []"
  by (simp add: split_scenarios_def split_step_no_scenario)

theorem split_no_scenario_empty_witness:
  "filter is_scenario_line (split_lines (''Feature: login'' @ newline # ''  Given a page'')) = []
   \<and> split_scenarios (''Feature: login'' @ newline # ''  Given a page'') = []"
  using split_no_scenario_empty [of "''Feature: login'' @ newline # ''  Given a page''"]
  by (simp add: is_scenario_line_def startswith_def strip_def isspace_def)

text \<open>
  C1 as stated fails: the one-line text \<open>Given a step\<close> has no \<open>Scenario:\<close> line, and
  the splitter returns no block, not the block \<open>Given a step\<close>.
\<close>

theorem split_no_scenario_counterexample:
  "filter is_scenario_line (split_lines ''Given a step'') = []
   \<and> split_scenarios ''Given a step'' \<noteq> [''Given a step'']"
  by (simp add: split_scenarios_def split_step_def is_scenario_line_def startswith_def
      strip_def isspace_def)

text \<open>The splitter on the two-scenario text of the specification's example.\<close>

lemma split_two_scenarios:
  "split_scenarios (''Scenario: A'' @ newline # ''step1'' @ newline # ''Scenario: B'' @ newline # ''step2'')
   = [''Scenario: A'' @ newline # ''step1'', ''Scenario: B'' @ newline # ''step2'']"
  by (simp add: split_scenarios_def split_step_def is_scenario_line_def startswith_def
      strip_def isspace_def)

text \<open>
  A \<open>Scenario:\<close> line is recognised behind any whitespace that \<open>strip\<close> removes, the
  no-break space and NEL included.
\<close>

lemma split_after_no_break_space:
  "split_scenarios (CHR 0xA0 # CHR 0x85 # ''Scenario: A'' @ newline # ''step'')
   = [CHR 0xA0 # CHR 0x85 # ''Scenario: A'' @ newline # ''step'']"
  by (simp add: split_scenarios_def split_step_def is_scenario_line_def startswith_def
      strip_def isspace_def)

subsection \<open>Regular-expression searches\<close>

lemma re_search_None_iff:
  "re_search m s = None \<longleftrightarrow> (\<forall>k \<le> length s. m (drop k s) = None)"
proof (induction s)
  case Nil
  show ?case by simp
next
  case (Cons c cs)
  have "(\<forall>k \<le> length (c # cs). m (drop k (c # cs)) = None)
        \<longleftrightarrow> m (c # cs) = None \<and> (\<forall>k \<le> length cs. m (drop k cs) = None)"
    (is "?L \<longleftrightarrow> ?R")
  proof
    assume l: ?L
    have "m (drop 0 (c # cs)) = None" using l by blast
    moreover have "m (drop k cs) = None" if "k \<le> length cs" for k
      using l [rule_format, of "Suc k"] that by simp
    ultimately show ?R by simp
  next
    assume r: ?R
    show ?L
    proof (intro allI impI)
      fix k assume "k \<le> length (c # cs)"
      then show "m (drop k (c # cs)) = None" using r by (cases k) auto
    qed
  qed
  with Cons show ?case by (simp split: option.splits)
qed

lemma re_search_skip:
  "(\<forall>k < length pre. m (drop k (pre @ s)) = None) \<Longrightarrow> re_search m (pre @ s) = re_search m s"
proof (induction pre)
  case Nil
  show ?case by simp
next
  case (Cons c pre)
  have 0: "m ((c # pre) @ s) = None"
    using Cons.prems [rule_format, of 0] by simp
  have "\<forall>k < length pre. m (drop k (pre @ s)) = None"
  proof (intro allI impI)
    fix k assume "k < length pre"
    then show "m (drop k (pre @ s)) = None"
      using Cons.prems [rule_format, of "Suc k"] by simp
  qed
  with Cons.IH 0 show ?case by simp
qed

lemma re_search_here: "m s = Some v \<Longrightarrow> re_search m s = Some v"
  by (cases s) auto

lemma takeWhile_until: "x \<notin> set v \<Longrightarrow> takeWhile (\<lambda>c. c \<noteq> x) (v @ x # r) = v"
  by (induction v) auto

lemma dropWhile_until: "x \<notin> set v \<Longrightarrow> dropWhile (\<lambda>c. c \<noteq> x) (v @ x # r) = x # r"
  by (induction v) auto

lemma match_xpath_attr_intro:
  "v \<noteq> [] \<Longrightarrow> quote \<notin> set v \<Longrightarrow>
   match_xpath_attr ((''xpath='' @ [quote]) @ v @ quote # r) = Some v"
  by (simp add: match_xpath_attr_def takeWhile_until dropWhile_until)

lemma match_xpath_attr_Some:
  assumes "match_xpath_attr s = Some v"
  shows "v \<noteq> [] \<and> quote \<notin> set v \<and> (\<exists>r. s = (''xpath='' @ [quote]) @ v @ quote # r)"
proof -
  from assms obtain rest where
    lit: "match_literal (''xpath='' @ [quote]) s = Some rest"
    and v: "v = takeWhile (\<lambda>c. c \<noteq> quote) rest" "v \<noteq> []"
    and d: "dropWhile (\<lambda>c. c \<noteq> quote) rest \<noteq> []"
    unfolding match_xpath_attr_def by (auto split: option.splits if_splits)
  from d obtain r where r: "dropWhile (\<lambda>c. c \<noteq> quote) rest = quote # r"
    using hd_dropWhile [of "\<lambda>c. c \<noteq> quote" rest]
    by (cases "dropWhile (\<lambda>c. c \<noteq> quote) rest") auto
  have "rest = v @ quote # r"
    using takeWhile_dropWhile_id [of "\<lambda>c. c \<noteq> quote" rest] v r by simp
  moreover have "quote \<notin> set v"
    using v(1) set_takeWhileD by fastforce
  ultimately show ?thesis
    using match_literal_Some [OF lit] v(2) by blast
qed

lemma re_search_Some_drop:
  "re_search m s = Some v \<Longrightarrow> \<exists>k \<le> length s. m (drop k s) = Some v"
proof (induction s)
  case Nil
  then show ?case by simp
next
  case (Cons c cs)
  show ?case
  proof (cases "m (c # cs)")
    case None
    with Cons.prems have "re_search m cs = Some v" by simp
    from Cons.IH [OF this] obtain k where "k \<le> length cs" "m (drop k cs) = Some v" by blast
    then have "Suc k \<le> length (c # cs) \<and> m (drop (Suc k) (c # cs)) = Some v" by simp
    then show ?thesis by blast
  next
    case (Some w)
    with Cons.prems have "m (drop 0 (c # cs)) = Some v" by simp
    then show ?thesis by blast
  qed
qed

lemma re_search_split:
  "re_search m s = Some v \<Longrightarrow> \<exists>pre t. s = pre @ t \<and> m t = Some v"
proof -
  assume "re_search m s = Some v"
  from re_search_Some_drop [OF this] obtain k where "m (drop k s) = Some v" by blast
  moreover have "s = take k s @ drop k s" by simp
  ultimately show ?thesis by blast
qed

lemma re_search_found:
  "m t \<noteq> None \<Longrightarrow> re_search m (pre @ t) \<noteq> None"
proof
  assume a: "m t \<noteq> None" and "re_search m (pre @ t) = None"
  then have "\<forall>k \<le> length (pre @ t). m (drop k (pre @ t)) = None"
    by (simp only: re_search_None_iff)
  then have "length pre \<le> length (pre @ t) \<longrightarrow> m (drop (length pre) (pre @ t)) = None"
    by (rule spec)
  with a show False by simp
qed

lemma match_xpath_phrase_Some:
  assumes "match_xpath_phrase s = Some v"
  shows "\<exists>c post. s = ''The xpath of the element is '' @ c # post \<and> c \<noteq> newline"
proof -
  from assms obtain rest where
    lit: "match_literal ''The xpath of the element is '' s = Some rest"
    and v: "takeWhile (\<lambda>c. c \<noteq> newline) rest \<noteq> []"
    unfolding match_xpath_phrase_def by (auto split: option.splits if_splits)
  from v obtain c post where r: "rest = c # post" "c \<noteq> newline"
    by (cases rest) (auto split: if_splits)
  with match_literal_Some [OF lit] show ?thesis by blast
qed

lemma match_xpath_phrase_intro:
  "c \<noteq> newline \<Longrightarrow> match_xpath_phrase (''The xpath of the element is '' @ c # post) \<noteq> None"
  by (simp add: match_xpath_phrase_def)

lemma xpath_phrase_found:
  "c \<noteq> newline \<Longrightarrow>
   re_search match_xpath_phrase (pre @ ''The xpath of the element is '' @ c # post) \<noteq> None"
  by (rule re_search_found) (rule match_xpath_phrase_intro)

lemma match_element_index_Some:
  assumes "match_element_index s = Some ds"
  shows "\<exists>c post. s = ''element '' @ c # post \<and> isdigit c"
proof -
  from assms obtain rest where
    lit: "match_literal ''element '' s = Some rest"
    and v: "takeWhile isdigit rest \<noteq> []"
    unfolding match_element_index_def by (auto split: option.splits if_splits)
  from v obtain c post where r: "rest = c # post" "isdigit c"
    by (cases rest) (auto split: if_splits)
  with match_literal_Some [OF lit] show ?thesis by blast
qed

lemma match_element_index_intro:
  "isdigit c \<Longrightarrow> match_element_index (''element '' @ c # post) \<noteq> None"
  by (simp add: match_element_index_def)

lemma element_index_found:
  "isdigit c \<Longrightarrow> re_search match_element_index (pre @ ''element '' @ c # post) \<noteq> None"
  by (rule re_search_found) (rule match_element_index_intro)

lemma content_write_item:
  "content_write (PStr xpath_item) = Some (PInt 5, ''//button[2], found near element 5'')"
  by (simp add: content_write_def xpath_item_def match_xpath_phrase_def match_element_index_def
      isdigit_def int_of_digits_def)

lemma content_write_absent:
  assumes "(\<nexists>pre c post. s = pre @ ''The xpath of the element is '' @ c # post \<and> c \<noteq> newline)
         \<or> (\<nexists>pre c post. s = pre @ ''element '' @ c # post \<and> isdigit c)"
  shows "content_write (PStr s) = None"
proof (rule ccontr)
  assume "content_write (PStr s) \<noteq> None"
  then obtain x ds where x: "re_search match_xpath_phrase s = Some x"
    and ds: "re_search match_element_index s = Some ds"
    by (auto simp: content_write_def split: option.splits)
  from re_search_split [OF x] match_xpath_phrase_Some
  have "\<exists>pre c post. s = pre @ ''The xpath of the element is '' @ c # post \<and> c \<noteq> newline"
    by metis
  moreover from re_search_split [OF ds] match_element_index_Some
  have "\<exists>pre c post. s = pre @ ''element '' @ c # post \<and> isdigit c"
    by metis
  ultimately show False using assms by blast
qed

subsection \<open>Secondary pass over the extracted content\<close>

text \<open>
  C2 (as the code has it). Group 1 of \<open>The xpath of the element is (.+)\<close> runs to the
  end of the line. For the item \<open>The xpath of the element is //button[2], found near
  element 5\<close> the pass adds exactly one entry: index 5 bound to the string
  \<open>//button[2], found near element 5\<close>. If the phrase \<open>The xpath of the element is \<close>
  followed by a character of the same line does not occur in an item, or \<open>element \<close>
  followed by a digit does not occur in it, the map is left as it was.
\<close>

theorem content_pass_rest_of_line:
  "snd (process_content (cs, m) (PStr xpath_item))
     = m(PInt 5 \<mapsto> ''//button[2], found near element 5'')
   \<and> (((\<nexists>pre c post. s = pre @ ''The xpath of the element is '' @ c # post \<and> c \<noteq> newline)
        \<or> (\<nexists>pre c post. s = pre @ ''element '' @ c # post \<and> isdigit c))
       \<longrightarrow> snd (process_content (cs, m) (PStr s)) = m)"
  by (simp add: process_content_def content_write_item content_write_absent)

theorem content_pass_rest_of_line_witness:
  "snd (process_content ([], Map.empty) (PStr xpath_item)) (PInt 5)
     = Some ''//button[2], found near element 5''
   \<and> snd (process_content ([], Map.empty) (PStr ''element 5 is a button'')) = Map.empty"
proof -
  have "re_search match_xpath_phrase ''element 5 is a button'' = None"
    by (simp add: match_xpath_phrase_def)
  then have "\<nexists>pre c post. ''element 5 is a button'' = pre @ ''The xpath of the element is '' @ c # post \<and> c \<noteq> newline"
    using xpath_phrase_found by metis
  then show ?thesis
    using content_pass_rest_of_line [of "[]" Map.empty "''element 5 is a button''"] by simp
qed

text \<open>
  C2 as stated fails: after the pass over that item, index 5 is not bound to
  \<open>//button[2]\<close>.
\<close>

theorem content_pass_counterexample:
  "snd (process_content ([], Map.empty) (PStr xpath_item)) (PInt 5) \<noteq> Some ''//button[2]''"
  by (simp add: process_content_def content_write_item)

subsection \<open>Element resolver\<close>

lemma leftmost_skip:
  assumes v: "v \<noteq> []" "quote \<notin> set v"
    and first: "\<forall>pre' w post'. w \<noteq> [] \<and> quote \<notin> set w
        \<and> pre @ (''xpath='' @ [quote]) @ v @ quote # post = pre' @ (''xpath='' @ [quote]) @ w @ quote # post'
        \<longrightarrow> length pre \<le> length pre'"
  shows "re_search match_xpath_attr (pre @ (''xpath='' @ [quote]) @ v @ quote # post) = Some v"
proof -
  let ?t = "(''xpath='' @ [quote]) @ v @ quote # post"
  have "match_xpath_attr (drop k (pre @ ?t)) = None" if k: "k < length pre" for k
  proof (rule ccontr)
    assume "match_xpath_attr (drop k (pre @ ?t)) \<noteq> None"
    then obtain w where "match_xpath_attr (drop k (pre @ ?t)) = Some w" by blast
    from match_xpath_attr_Some [OF this] obtain r where
      w: "w \<noteq> []" "quote \<notin> set w" and d: "drop k (pre @ ?t) = (''xpath='' @ [quote]) @ w @ quote # r"
      by blast
    have "pre @ ?t = take k (pre @ ?t) @ drop k (pre @ ?t)"
      by (rule append_take_drop_id [symmetric])
    with d have "pre @ ?t = take k (pre @ ?t) @ (''xpath='' @ [quote]) @ w @ quote # r"
      by (simp only:)
    with first w have "length pre \<le> length (take k (pre @ ?t))" by blast
    with k show False by simp
  qed
  then have "re_search match_xpath_attr (pre @ ?t) = re_search match_xpath_attr ?t"
    by (intro re_search_skip) blast
  also have "\<dots> = Some v"
    by (rule re_search_here) (rule match_xpath_attr_intro [OF v])
  finally show ?thesis .
qed

text \<open>
  C8 (as the code has it). \<open>re.search\<close> returns the leftmost match, and \<open>[^']+\<close>
  needs at least one character. For a discovery entry whose element text contains
  \<open>xpath='v'\<close> with \<open>v\<close> not empty and free of quotes, at the leftmost place where the
  text has \<open>xpath='\<close>, a non-empty run without quotes and a closing quote, the record
  gets \<open>element_details = {index, xpath: v}\<close> and the map binds the index to \<open>v\<close>; the
  index is \<open>params.get("index")\<close>.
\<close>

theorem discovery_attaches_leftmost_xpath:
  assumes "actions a ''get_xpath_of_element'' = Some action_params"
    and "interacted_element a = Described (pre @ (''xpath='' @ [quote]) @ v @ quote # post)"
    and "v \<noteq> []" and "quote \<notin> set v"
    and "\<forall>pre' w post'. w \<noteq> [] \<and> quote \<notin> set w
        \<and> pre @ (''xpath='' @ [quote]) @ v @ quote # post = pre' @ (''xpath='' @ [quote]) @ w @ quote # post'
        \<longrightarrow> length pre \<le> length pre'"
    and "element_index = (case action_params ''index'' of None \<Rightarrow> PNone | Some x \<Rightarrow> x)"
  shows "process_action h (recs, m) (i, a) =
           (recs @ [\<lparr>detail_name = action_name h i, detail_index = i,
                     element_details = [''index'' \<mapsto> element_index, ''xpath'' \<mapsto> PStr v]\<rparr>],
            m(element_index \<mapsto> v))"
proof -
  have "re_search match_xpath_attr (pre @ (''xpath='' @ [quote]) @ v @ quote # post) = Some v"
    using assms(3-5) by (rule leftmost_skip)
  with assms(1,2,6) show ?thesis
    by (simp add: process_action_def resolve_action_def discovery_action_def
        attach_from_element_def element_info_def Let_def)
qed

theorem discovery_attaches_leftmost_xpath_witness:
  "process_action first_history ([], Map.empty) (1, discovery_example) =
     ([\<lparr>detail_name = ''get_xpath_of_element'', detail_index = 1,
        element_details = [''index'' \<mapsto> PInt 7, ''xpath'' \<mapsto> PStr ''//div[@id=1]'']\<rparr>],
      [PInt 7 \<mapsto> ''//div[@id=1]''])"
proof -
  let ?d = "''...'' @ (''xpath='' @ [quote]) @ ''//div[@id=1]'' @ quote # ''...''"
  have first: "\<forall>pre' w post'. w \<noteq> [] \<and> quote \<notin> set w
        \<and> ?d = pre' @ (''xpath='' @ [quote]) @ w @ quote # post'
        \<longrightarrow> length ''...'' \<le> length pre'"
  proof (intro allI impI)
    fix pre' w post'
    assume a: "w \<noteq> [] \<and> quote \<notin> set w \<and> ?d = pre' @ (''xpath='' @ [quote]) @ w @ quote # post'"
    show "length ''...'' \<le> length pre'"
    proof (rule ccontr)
      assume "\<not> length ''...'' \<le> length pre'"
      then have "length pre' < 3" by simp
      then consider "pre' = []" | c where "pre' = [c]" | c d where "pre' = [c, d]"
        by (cases pre'; cases "tl pre'"; cases "tl (tl pre')") auto
      then show False using a by cases auto
    qed
  qed
  show ?thesis
    using discovery_attaches_leftmost_xpath [of discovery_example "[''index'' \<mapsto> PInt 7]"
        "''...''" "''//div[@id=1]''" "''...''" "PInt 7" first_history "[]" Map.empty 1]
      first
    by (simp add: discovery_example_def action_name_def first_history_def)
qed

text \<open>
  C8 as stated fails twice. The text \<open>xpath='a' xpath='b'\<close> contains \<open>xpath='b'\<close>, and
  the resolver attaches \<open>a\<close>. The text \<open>xpath=''\<close> contains \<open>xpath='v'\<close> for the empty
  \<open>v\<close>, and the resolver attaches nothing.
\<close>

theorem discovery_counterexample:
  "interacted_element discovery_twice =
     Described ((''xpath='' @ [quote] @ ''a'' @ [quote] @ '' '')
                @ (''xpath='' @ [quote]) @ ''b'' @ quote # [])
   \<and> snd (resolve_action discovery_twice Map.empty) ''xpath'' = Some (PStr ''a'')
   \<and> interacted_element discovery_empty = Described ([] @ (''xpath='' @ [quote]) @ [] @ quote # [])
   \<and> snd (resolve_action discovery_empty Map.empty) ''xpath'' = None"
  by (simp add: discovery_twice_def discovery_empty_def resolve_action_def discovery_action_def
      attach_from_element_def element_info_def match_xpath_attr_def Let_def)

text \<open>
  C9. An entry with none of the keys \<open>get_xpath_of_element\<close>, \<open>input_text\<close>,
  \<open>click_element\<close>, \<open>perform_element_action\<close> yields a record with its name, its index
  and the empty \<open>element_details\<close> of line 142; the map is not touched.
\<close>

theorem other_action_plain_record:
  assumes "actions a ''get_xpath_of_element'' = None"
    and "actions a ''input_text'' = None"
    and "actions a ''click_element'' = None"
    and "actions a ''perform_element_action'' = None"
  shows "process_action h (recs, m) (i, a) =
           (recs @ [\<lparr>detail_name = action_name h i, detail_index = i,
                     element_details = Map.empty\<rparr>], m)"
  using assms by (simp add: process_action_def resolve_action_def interaction_keys_def)

theorem other_action_plain_record_witness:
  "process_action first_history ([], Map.empty) (0, visit_action) =
     ([\<lparr>detail_name = ''go_to_url'', detail_index = 0, element_details = Map.empty\<rparr>],
      Map.empty)"
  using other_action_plain_record [of visit_action first_history "[]" Map.empty 0]
  by (simp add: visit_action_def action_name_def first_history_def)

text \<open>
  The invariant holds for every record built from a discovery entry or from an entry with
  at most one indexed interaction key.
\<close>

lemma attach_consistent:
  assumes "d ''index'' = Some element_index" and "snapshot_consistent m d"
  shows "snapshot_consistent (fst (attach_from_element a element_index (m, d)))
           (snd (attach_from_element a element_index (m, d)))"
  using assms
  by (auto simp: attach_from_element_def snapshot_consistent_def split: option.splits)

lemma interaction_key_noop:
  "key_write a [] key = None \<Longrightarrow> interaction_key a st key = st"
  by (cases st) (auto simp: interaction_key_def key_write_def split: option.splits)

lemma interaction_key_fresh:
  "snapshot_consistent (fst (interaction_key a (m, Map.empty) key))
     (snd (interaction_key a (m, Map.empty) key))"
proof (cases "key_write a [] key")
  case None
  then show ?thesis by (simp add: interaction_key_noop snapshot_consistent_def)
next
  case (Some w)
  then obtain action_params element_index where k: "actions a key = Some action_params"
    "action_params ''index'' = Some element_index"
    by (auto simp: key_write_def split: option.splits)
  show ?thesis
  proof (cases "m element_index")
    case None
    have "snapshot_consistent m [''index'' \<mapsto> element_index]"
      by (simp add: snapshot_consistent_def)
    from attach_consistent [OF _ this, of element_index a] k None show ?thesis
      by (simp add: interaction_key_def)
  next
    case (Some known)
    have "snapshot_consistent m [''index'' \<mapsto> element_index, ''xpath'' \<mapsto> PStr known]"
      by (simp add: snapshot_consistent_def Some)
    from attach_consistent [OF _ this, of element_index a] k Some show ?thesis
      by (simp add: interaction_key_def)
  qed
qed

lemma single_key_consistent:
  assumes "actions a ''get_xpath_of_element'' \<noteq> None \<or> length (indexed_keys a) \<le> 1"
  shows "snapshot_consistent (fst (resolve_action a m)) (snd (resolve_action a m))"
proof (cases "actions a ''get_xpath_of_element''")
  case (Some action_params)
  let ?i = "case action_params ''index'' of None \<Rightarrow> PNone | Some v \<Rightarrow> v"
  have "snapshot_consistent m [''index'' \<mapsto> ?i]"
    by (simp add: snapshot_consistent_def)
  from attach_consistent [OF _ this, of ?i a] Some show ?thesis
    by (simp add: resolve_action_def discovery_action_def Let_def)
next
  case None
  with assms have one: "length (indexed_keys a) \<le> 1" by simp
  have empty: "snapshot_consistent m Map.empty"
    by (simp add: snapshot_consistent_def)
  define unindexed where "unindexed key \<longleftrightarrow> key_write a [] key = None" for key
  have "length (filter (\<lambda>key. \<not> unindexed key)
          [''input_text'', ''click_element'', ''perform_element_action'']) \<le> 1"
    using one by (simp add: indexed_keys_def interaction_keys_def unindexed_def)
  then have "(unindexed ''click_element'' \<and> unindexed ''perform_element_action'')
      \<or> (unindexed ''input_text'' \<and> unindexed ''perform_element_action'')
      \<or> (unindexed ''input_text'' \<and> unindexed ''click_element'')"
    by (auto split: if_splits)
  then have "snapshot_consistent (fst (foldl (interaction_key a) (m, Map.empty) interaction_keys))
      (snd (foldl (interaction_key a) (m, Map.empty) interaction_keys))"
    unfolding unindexed_def
    by (elim disjE conjE)
       (simp_all add: interaction_keys_def interaction_key_noop interaction_key_fresh)
  with None empty show ?thesis
    by (simp add: resolve_action_def)
qed

text \<open>
  C4 on an entry with two interaction keys. The loop of lines 182-222 handles
  \<open>input_text\<close> (index 3, known to the map) and then \<open>click_element\<close> (index 4, not in
  the map): the second pass overwrites \<open>index\<close> and leaves the \<open>xpath\<close> of the first, so
  the record carries index 4 with the XPath of element 3 while the map has no entry for 4.
\<close>

theorem two_keys_stale_xpath:
  "snd (resolve_action two_key_action [PInt 3 \<mapsto> ''//input[1]'']) ''index'' = Some (PInt 4)
   \<and> snd (resolve_action two_key_action [PInt 3 \<mapsto> ''//input[1]'']) ''xpath''
       = Some (PStr ''//input[1]'')
   \<and> fst (resolve_action two_key_action [PInt 3 \<mapsto> ''//input[1]'']) (PInt 4) = None
   \<and> \<not> snapshot_consistent (fst (resolve_action two_key_action [PInt 3 \<mapsto> ''//input[1]'']))
         (snd (resolve_action two_key_action [PInt 3 \<mapsto> ''//input[1]'']))"
  by (simp add: two_key_action_def resolve_action_def interaction_keys_def interaction_key_def
      attach_from_element_def element_info_def snapshot_consistent_def)

subsection \<open>One scenario\<close>

lemma process_action_step:
  "process_action h (recs, m) (i, a) =
     (recs @ [\<lparr>detail_name = action_name h i, detail_index = i,
               element_details = snd (resolve_action a m)\<rparr>],
      fst (resolve_action a m))"
  by (simp add: process_action_def split: prod.splits)

lemma process_content_step:
  "process_content (cs, m) content =
     (cs @ [content],
      foldl apply_write m (List.map_filter content_write [content]))"
  by (simp add: process_content_def apply_write_def split: option.splits)

lemma process_action_indices:
  "map detail_index (fst (foldl (process_action h) (recs, m) ias))
     = map detail_index recs @ map fst ias"
proof (induction ias arbitrary: recs m)
  case Nil
  show ?case by simp
next
  case (Cons ia ias)
  obtain i a where ia: "ia = (i, a)" by (cases ia)
  show ?case
    by (simp add: ia process_action_step Cons.IH)
qed

lemma process_action_names:
  "map detail_name (fst (foldl (process_action h) (recs, m) ias))
     = map detail_name recs @ map (action_name h) (map fst ias)"
proof (induction ias arbitrary: recs m)
  case Nil
  show ?case by simp
next
  case (Cons ia ias)
  obtain i a where ia: "ia = (i, a)" by (cases ia)
  show ?case
    by (simp add: ia process_action_step Cons.IH)
qed

lemma attach_from_element_map:
  "fst (attach_from_element a element_index (m, d)) =
     (case element_info a of
        None \<Rightarrow> m
      | Some info \<Rightarrow>
          (case re_search match_xpath_attr info of
             None \<Rightarrow> m
           | Some xpath \<Rightarrow> m(element_index \<mapsto> xpath)))"
  by (simp add: attach_from_element_def split: option.splits)

lemma interaction_key_map:
  "fst (interaction_key a (m, d) key) =
     (case element_info a of
        None \<Rightarrow> m
      | Some info \<Rightarrow>
          (case re_search match_xpath_attr info of
             None \<Rightarrow> m
           | Some xpath \<Rightarrow>
               (case key_write a xpath key of None \<Rightarrow> m | Some w \<Rightarrow> apply_write m w)))"
  by (simp add: interaction_key_def key_write_def apply_write_def attach_from_element_map
      split: option.splits)

lemma interaction_keys_map:
  "fst (foldl (interaction_key a) (m, d) keys) =
     (case element_info a of
        None \<Rightarrow> m
      | Some info \<Rightarrow>
          (case re_search match_xpath_attr info of
             None \<Rightarrow> m
           | Some xpath \<Rightarrow> foldl apply_write m (List.map_filter (key_write a xpath) keys)))"
proof (induction keys arbitrary: m d)
  case Nil
  show ?case by (simp add: split: option.splits)
next
  case (Cons key keys)
  obtain m' d' where s: "interaction_key a (m, d) key = (m', d')"
    by (cases "interaction_key a (m, d) key")
  have m': "m' = fst (interaction_key a (m, d) key)" by (simp add: s)
  show ?case
    by (simp add: s Cons.IH) (simp add: m' interaction_key_map split: option.splits)
qed

lemma no_key_no_write:
  "\<not> list_ex (\<lambda>key. actions a key \<noteq> None) keys \<Longrightarrow> List.map_filter (key_write a xpath) keys = []"
  by (induction keys) (auto simp: key_write_def)

lemma resolve_action_map:
  "fst (resolve_action a m) = foldl apply_write m (entry_writes a)"
proof (cases "actions a ''get_xpath_of_element''")
  case (Some action_params)
  then show ?thesis
    by (simp add: resolve_action_def discovery_action_def entry_writes_def Let_def
        attach_from_element_map apply_write_def split: option.splits)
next
  case None
  show ?thesis
  proof (cases "list_ex (\<lambda>key. actions a key \<noteq> None) interaction_keys")
    case True
    with None show ?thesis
      by (simp add: resolve_action_def entry_writes_def interaction_keys_map split: option.splits)
  next
    case False
    with None no_key_no_write [OF False] show ?thesis
      by (simp add: resolve_action_def entry_writes_def split: option.splits)
  qed
qed

lemma process_action_map:
  "snd (foldl (process_action h) (recs, m) ias)
     = foldl apply_write m (concat (map entry_writes (map snd ias)))"
proof (induction ias arbitrary: recs m)
  case Nil
  show ?case by simp
next
  case (Cons ia ias)
  obtain i a where ia: "ia = (i, a)" by (cases ia)
  show ?case
    by (simp add: ia process_action_step Cons.IH resolve_action_map)
qed

lemma process_content_items:
  "fst (foldl process_content (cs, m) items) = cs @ items"
  by (induction items arbitrary: cs m) (simp_all add: process_content_step)

lemma process_content_map:
  "snd (foldl process_content (cs, m) items)
     = foldl apply_write m (List.map_filter content_write items)"
  by (induction items arbitrary: cs m)
     (simp_all add: process_content_step split: option.splits)


lemma process_history_fields:
  "all_results (process_history h st) = all_results st @ [normalize_result (final_result h)]"
  "all_extracted_content (process_history h st) = all_extracted_content st @ extracted_content h"
  "element_xpath_map (process_history h st)
     = foldl apply_write (element_xpath_map st) (history_writes h)"
  "map detail_index (all_actions (process_history h st))
     = map detail_index (all_actions st) @ [0..<length (model_actions h)]"
  "map detail_name (all_actions (process_history h st))
     = map detail_name (all_actions st) @ map (action_name h) [0..<length (model_actions h)]"
  "history (process_history h st) = Some h"
proof -
  obtain acts m1 where a: "foldl (process_action h) (all_actions st, element_xpath_map st)
      (enumerate 0 (model_actions h)) = (acts, m1)"
    by (cases "foldl (process_action h) (all_actions st, element_xpath_map st)
      (enumerate 0 (model_actions h))")
  obtain contents m2 where c: "foldl process_content (all_extracted_content st, m1)
      (extracted_content h) = (contents, m2)"
    by (cases "foldl process_content (all_extracted_content st, m1) (extracted_content h)")
  have ph: "process_history h st =
      \<lparr>all_results = all_results st @ [normalize_result (final_result h)],
       all_actions = acts, all_extracted_content = contents,
       element_xpath_map = m2, history = Some h\<rparr>"
    by (simp add: process_history_def a c)
  have acts_idx: "map detail_index acts = map detail_index (all_actions st) @ [0..<length (model_actions h)]"
    using process_action_indices [of h "all_actions st" "element_xpath_map st"
        "enumerate 0 (model_actions h)"]
    by (simp add: a)
  have acts_names: "map detail_name acts
      = map detail_name (all_actions st) @ map (action_name h) [0..<length (model_actions h)]"
    using process_action_names [of h "all_actions st" "element_xpath_map st"
        "enumerate 0 (model_actions h)"]
    by (simp add: a del: map_map)
  have m1: "m1 = foldl apply_write (element_xpath_map st)
      (concat (map entry_writes (model_actions h)))"
    using process_action_map [of h "all_actions st" "element_xpath_map st"
        "enumerate 0 (model_actions h)"]
    by (simp add: a del: map_map)
  have cont: "contents = all_extracted_content st @ extracted_content h"
    using process_content_items [of "all_extracted_content st" m1 "extracted_content h"]
    by (simp add: c)
  have m2: "m2 = foldl apply_write m1 (List.map_filter content_write (extracted_content h))"
    using process_content_map [of "all_extracted_content st" m1 "extracted_content h"]
    by (simp add: c)
  show "all_results (process_history h st) = all_results st @ [normalize_result (final_result h)]"
    by (simp add: ph)
  show "all_extracted_content (process_history h st) = all_extracted_content st @ extracted_content h"
    by (simp add: ph cont)
  show "element_xpath_map (process_history h st)
     = foldl apply_write (element_xpath_map st) (history_writes h)"
    by (simp add: ph m2 m1 history_writes_def)
  show "map detail_index (all_actions (process_history h st))
     = map detail_index (all_actions st) @ [0..<length (model_actions h)]"
    by (simp add: ph acts_idx)
  show "map detail_name (all_actions (process_history h st))
     = map detail_name (all_actions st) @ map (action_name h) [0..<length (model_actions h)]"
    by (simp add: ph acts_names)
  show "history (process_history h st) = Some h"
    by (simp add: ph)
qed

subsection \<open>The run\<close>

lemma collect_snoc: "collect st (hs @ [h]) = process_history h (collect st hs)"
  by (simp add: collect_def)

lemma collect_fields:
  "all_results (collect st hs) = all_results st @ map (\<lambda>h. normalize_result (final_result h)) hs"
  "all_extracted_content (collect st hs)
     = all_extracted_content st @ concat (map extracted_content hs)"
  "element_xpath_map (collect st hs) = foldl apply_write (element_xpath_map st) (write_log hs)"
  "map detail_index (all_actions (collect st hs))
     = map detail_index (all_actions st)
       @ concat (map (\<lambda>h. [0..<length (model_actions h)]) hs)"
  "map detail_name (all_actions (collect st hs))
     = map detail_name (all_actions st)
       @ concat (map (\<lambda>h. map (action_name h) [0..<length (model_actions h)]) hs)"
  by (induction hs rule: rev_induct)
     (simp_all add: collect_snoc process_history_fields write_log_def, simp_all add: collect_def)

lemma collect_history: "hs \<noteq> [] \<Longrightarrow> history (collect st hs) = Some (last hs)"
  by (cases hs rule: rev_cases) (simp_all add: collect_snoc process_history_fields)

lemma run_scenarios_return:
  "length hs = length scs \<Longrightarrow> \<forall>j < length scs. agent (k + j) (scs ! j) = Inr (hs ! j) \<Longrightarrow>
   run_scenarios agent k scs st = Inr (collect st hs)"
proof (induction scs arbitrary: k st hs)
  case Nil
  then show ?case by (simp add: collect_def)
next
  case (Cons sc scs)
  from Cons.prems(1) obtain h hs' where hs: "hs = h # hs'" by (cases hs) auto
  have 0: "agent k sc = Inr h"
    using Cons.prems(2) [rule_format, of 0] by (simp add: hs)
  have rest: "\<forall>j < length scs. agent (Suc k + j) (scs ! j) = Inr (hs' ! j)"
  proof (intro allI impI)
    fix j assume "j < length scs"
    then show "agent (Suc k + j) (scs ! j) = Inr (hs' ! j)"
      using Cons.prems(2) [rule_format, of "Suc j"] by (simp add: hs)
  qed
  have "run_scenarios agent (Suc k) scs (process_history h st)
          = Inr (collect (process_history h st) hs')"
    using Cons.prems(1) rest by (intro Cons.IH) (simp add: hs)
  with 0 show ?case by (simp add: hs collect_def)
qed

lemma run_scenarios_raise:
  "j < length scs \<Longrightarrow> agent (k + j) (scs ! j) = Inl e \<Longrightarrow>
   \<exists>e'. run_scenarios agent k scs st = Inl e'"
proof (induction scs arbitrary: k st j)
  case Nil
  then show ?case by simp
next
  case (Cons sc scs)
  show ?case
  proof (cases "agent k sc")
    case (Inl e0)
    then show ?thesis by simp
  next
    case (Inr h)
    with Cons.prems(2) obtain j' where j: "j = Suc j'" by (cases j) auto
    with Cons.prems have "j' < length scs" "agent (Suc k + j') (scs ! j') = Inl e" by simp_all
    from Cons.IH [OF this] Inr show ?thesis by simp
  qed
qed

lemma execute_test_return:
  assumes "length hs = length (split_scenarios steps)"
    and "\<forall>j < length hs. agent j (split_scenarios steps ! j) = Inr (hs ! j)"
    and "hs \<noteq> []"
  shows "execute_test agent steps sess =
           (sess\<lparr>stored_history := Some (build_record sess (collect initial_state hs) (last hs))\<rparr>,
            None)"
proof -
  have "run_scenarios agent 0 (split_scenarios steps) initial_state = Inr (collect initial_state hs)"
    using assms(1,2) by (intro run_scenarios_return) simp_all
  then show ?thesis
    by (simp add: execute_test_def collect_history [OF assms(3)])
qed

lemma execute_test_raise:
  assumes "j < length (split_scenarios steps)"
    and "agent j (split_scenarios steps ! j) = Inl e"
  shows "\<exists>e'. execute_test agent steps sess = (sess, Some e')"
proof -
  from run_scenarios_raise [of j "split_scenarios steps" agent 0 e initial_state] assms
  obtain e' where "run_scenarios agent 0 (split_scenarios steps) initial_state = Inl e'" by auto
  then show ?thesis by (simp add: execute_test_def)
qed

lemma execute_test_no_scenario:
  "split_scenarios steps = [] \<Longrightarrow> execute_test agent steps sess = (sess, Some UnboundLocalError)"
  by (simp add: execute_test_def initial_state_def)

lemma apply_writes_last:
  "foldl apply_write m ws key =
     (if filter (\<lambda>w. fst w = key) ws = [] then m key
      else Some (snd (last (filter (\<lambda>w. fst w = key) ws))))"
  by (induction ws rule: rev_induct) (simp_all add: apply_write_def)

lemma apply_writes_dom: "dom m \<subseteq> dom (foldl apply_write m ws)"
  by (induction ws rule: rev_induct) (auto simp: apply_write_def)

lemma two_steps_scenarios:
  "split_scenarios two_steps = [''Scenario: A'' @ newline # ''step1'', ''Scenario: B'' @ newline # ''step2'']"
  unfolding two_steps_def by (rule split_two_scenarios)

lemma example_run:
  "length [first_history, second_history] = length (split_scenarios two_steps)"
  "\<forall>j < length [first_history, second_history].
      example_agent j (split_scenarios two_steps ! j) = Inr ([first_history, second_history] ! j)"
  by (simp_all add: two_steps_scenarios example_agent_def All_less_Suc)

lemma content_write_done: "content_write (PStr ''done'') = None"
  by (simp add: content_write_def match_xpath_phrase_def)

lemma example_write_log:
  "write_log [first_history, second_history] =
     [(PInt 7, ''//div[@id=1]''), (PInt 5, ''//button[2], found near element 5''),
      (PInt 7, ''//div[2]'')]"
  by (simp add: write_log_def history_writes_def first_history_def second_history_def
      entry_writes_def visit_action_def discovery_example_def click_action_def element_info_def
      match_xpath_attr_def content_write_item content_write_done interaction_keys_def
      key_write_def)

lemma example_execute:
  "execute_test example_agent two_steps sess =
     (sess\<lparr>stored_history :=
         Some (build_record sess (collect initial_state [first_history, second_history])
                 second_history)\<rparr>,
      None)"
  using execute_test_return [where agent = example_agent and steps = two_steps
      and hs = "[first_history, second_history]" and sess = sess] example_run
  by simp

text \<open>
  C3 (as the code has it). The \<open>index\<close> of a record is the \<open>i\<close> of
  \<open>enumerate(history.model_actions())\<close> (line 131), which starts at 0 for every scenario.
  In a run whose agent runs all return, the indices of the stored combined list are the
  positions within each scenario's own action list, scenario after scenario.
\<close>

theorem detail_index_per_scenario:
  assumes "length hs = length (split_scenarios steps)"
    and "\<forall>j < length hs. agent j (split_scenarios steps ! j) = Inr (hs ! j)"
    and "hs \<noteq> []"
  shows "\<exists>r. stored_history (fst (execute_test agent steps sess)) = Some r
           \<and> map detail_index (er_detailed_actions r)
               = concat (map (\<lambda>h. [0..<length (model_actions h)]) hs)"
  using execute_test_return [where agent = agent and steps = steps and hs = hs and sess = sess]
    assms
  by (simp add: build_record_def collect_fields initial_state_def)

theorem detail_index_per_scenario_witness:
  "\<exists>r. stored_history (fst (execute_test example_agent two_steps old_session)) = Some r
      \<and> map detail_index (er_detailed_actions r) = [0, 1, 0]"
proof -
  have "[first_history, second_history] \<noteq> []" by simp
  from detail_index_per_scenario [where agent = example_agent and steps = two_steps
      and hs = "[first_history, second_history]" and sess = old_session,
      OF example_run this]
  show ?thesis by (simp add: first_history_def second_history_def)
qed

text \<open>
  C3 as stated fails: in the run of two scenarios with two and one actions, the indices of
  the combined list are 0, 1, 0, so the record at position 2 has index 0.
\<close>

theorem detail_index_counterexample:
  "map_option (map detail_index \<circ> er_detailed_actions)
     (stored_history (fst (execute_test example_agent two_steps old_session))) = Some [0, 1, 0]"
  by (simp add: example_execute build_record_def collect_fields
      initial_state_def first_history_def second_history_def)

text \<open>
  C5. In a run whose agent runs all return, the stored map binds every index that the
  write log mentions to the value of the last write to it, and binds nothing else; no
  step of the run (one raw action entry, one content item, one scenario) removes a key.
\<close>

theorem xpath_map_last_writer_wins:
  assumes "length hs = length (split_scenarios steps)"
    and "\<forall>j < length hs. agent j (split_scenarios steps ! j) = Inr (hs ! j)"
    and "hs \<noteq> []"
  shows "(\<exists>r. stored_history (fst (execute_test agent steps sess)) = Some r
            \<and> (\<forall>key. filter (\<lambda>w. fst w = key) (write_log hs) \<noteq> [] \<longrightarrow>
                  er_element_xpaths r key
                    = Some (snd (last (filter (\<lambda>w. fst w = key) (write_log hs)))))
            \<and> (\<forall>key. filter (\<lambda>w. fst w = key) (write_log hs) = [] \<longrightarrow>
                  er_element_xpaths r key = None))
         \<and> dom m \<subseteq> dom (fst (resolve_action a m))
         \<and> dom m \<subseteq> dom (snd (process_content (cs, m) item))
         \<and> dom (element_xpath_map st) \<subseteq> dom (element_xpath_map (process_history h st))"
proof (intro conjI)
  show "\<exists>r. stored_history (fst (execute_test agent steps sess)) = Some r
            \<and> (\<forall>key. filter (\<lambda>w. fst w = key) (write_log hs) \<noteq> [] \<longrightarrow>
                  er_element_xpaths r key
                    = Some (snd (last (filter (\<lambda>w. fst w = key) (write_log hs)))))
            \<and> (\<forall>key. filter (\<lambda>w. fst w = key) (write_log hs) = [] \<longrightarrow>
                  er_element_xpaths r key = None)"
    using execute_test_return [where agent = agent and steps = steps and hs = hs
        and sess = sess] assms
    by (simp add: build_record_def collect_fields initial_state_def apply_writes_last)
  show "dom m \<subseteq> dom (fst (resolve_action a m))"
    by (simp only: resolve_action_map apply_writes_dom)
  show "dom m \<subseteq> dom (snd (process_content (cs, m) item))"
    by (simp only: process_content_step snd_conv apply_writes_dom)
  show "dom (element_xpath_map st) \<subseteq> dom (element_xpath_map (process_history h st))"
    by (simp only: process_history_fields apply_writes_dom)
qed

theorem xpath_map_last_writer_wins_witness:
  "\<exists>r. stored_history (fst (execute_test example_agent two_steps old_session)) = Some r
      \<and> er_element_xpaths r (PInt 7) = Some ''//div[2]''
      \<and> er_element_xpaths r (PInt 5) = Some ''//button[2], found near element 5''
      \<and> er_element_xpaths r (PInt 4) = None"
proof -
  let ?log = "write_log [first_history, second_history]"
  have "[first_history, second_history] \<noteq> []" by simp
  from xpath_map_last_writer_wins [where agent = example_agent and steps = two_steps
      and hs = "[first_history, second_history]" and sess = old_session,
      OF example_run this]
  obtain r where r: "stored_history (fst (execute_test example_agent two_steps old_session)) = Some r"
    and written: "\<And>key. filter (\<lambda>w. fst w = key) ?log \<noteq> [] \<Longrightarrow>
        er_element_xpaths r key = Some (snd (last (filter (\<lambda>w. fst w = key) ?log)))"
    and unwritten: "\<And>key. filter (\<lambda>w. fst w = key) ?log = [] \<Longrightarrow>
        er_element_xpaths r key = None"
    by blast
  have "er_element_xpaths r (PInt 7) = Some ''//div[2]''"
    using written [of "PInt 7"] by (simp add: example_write_log)
  moreover have "er_element_xpaths r (PInt 5) = Some ''//button[2], found near element 5''"
    using written [of "PInt 5"] by (simp add: example_write_log)
  moreover have "er_element_xpaths r (PInt 4) = None"
    using unwritten [of "PInt 4"] by (simp add: example_write_log)
  ultimately show ?thesis using r by simp
qed

text \<open>
  C6. If the agent run of some scenario raises, the assignment of lines 246-257 is not
  reached: the session after \<open>execute_test\<close> is the session before it, and the handler
  has an exception to report.
\<close>

theorem agent_raise_keeps_session:
  assumes "j < length (split_scenarios steps)"
    and "agent j (split_scenarios steps ! j) = Inl e"
  shows "fst (execute_test agent steps sess) = sess
         \<and> snd (execute_test agent steps sess) \<noteq> None"
  using execute_test_raise [where agent = agent and steps = steps and j = j and e = e
      and sess = sess] assms
  by auto

theorem agent_raise_keeps_session_witness:
  "fst (execute_test failing_agent two_steps old_session) = old_session
   \<and> snd (execute_test failing_agent two_steps old_session) \<noteq> None"
  using agent_raise_keeps_session [where agent = failing_agent and steps = two_steps
      and j = 1 and e = "AgentError ''Browser closed''" and sess = old_session]
  by (simp add: two_steps_scenarios failing_agent_def)

lemma structured_normalize:
  "structured (normalize_result result) \<longleftrightarrow> (\<exists>s. result = PStr s) \<or> structured result"
  by (cases result) (auto simp: normalize_result_def structured_def)

text \<open>
  C7 (as the code has it). A string result \<open>s\<close> becomes the pair
  \<open>{status: s, details: "Execution completed"}\<close>, any other result is appended as it
  is, and the appended result has the \<open>{status, details}\<close> shape exactly when the
  agent's result was a string or had that shape already.
\<close>

theorem normalize_result_shape:
  "normalize_result (PStr s)
     = PDict [(''status'', PStr s), (''details'', PStr ''Execution completed'')]
   \<and> ((\<forall>s. result \<noteq> PStr s) \<longrightarrow> normalize_result result = result)
   \<and> all_results (process_history h st) = all_results st @ [normalize_result (final_result h)]
   \<and> (structured (normalize_result result) \<longleftrightarrow> (\<exists>s. result = PStr s) \<or> structured result)"
  by (cases result) (simp_all add: normalize_result_def process_history_fields structured_def)

theorem normalize_result_shape_witness:
  "normalize_result (PStr ''Login succeeded'')
     = PDict [(''status'', PStr ''Login succeeded''), (''details'', PStr ''Execution completed'')]
   \<and> normalize_result PNone = PNone
   \<and> all_results (process_history first_history initial_state)
       = [PDict [(''status'', PStr ''Login succeeded''), (''details'', PStr ''Execution completed'')]]"
  using normalize_result_shape [of "''Login succeeded''" PNone first_history initial_state]
  by (simp add: first_history_def initial_state_def)

text \<open>
  C7 as stated fails: a scenario whose result is \<open>None\<close> (no final text) adds
  \<open>None\<close> to the accumulated results, which has no \<open>{status, details}\<close> shape.
\<close>

theorem normalize_result_counterexample:
  "all_results (process_history second_history initial_state) = [PNone]
   \<and> \<not> structured PNone"
  by (simp add: process_history_fields second_history_def initial_state_def
      normalize_result_def structured_def)

lemma process_action_records:
  "fst (foldl (process_action h) (recs, m) (enumerate i as)) = recs @ records_from h m i as"
  by (induction as arbitrary: recs m i) (simp_all add: process_action_step)

lemma process_history_records:
  "all_actions (process_history h st)
     = all_actions st @ records_from h (element_xpath_map st) 0 (model_actions h)"
proof -
  obtain acts m1 where a: "foldl (process_action h) (all_actions st, element_xpath_map st)
      (enumerate 0 (model_actions h)) = (acts, m1)"
    by (cases "foldl (process_action h) (all_actions st, element_xpath_map st)
      (enumerate 0 (model_actions h))")
  have "acts = all_actions st @ records_from h (element_xpath_map st) 0 (model_actions h)"
    using process_action_records [of h "all_actions st" "element_xpath_map st" 0 "model_actions h"]
    by (simp add: a)
  then show ?thesis
    by (simp add: process_history_def a split: prod.splits)
qed

lemma collect_Cons: "collect st (h # hs) = collect (process_history h st) hs"
  by (simp add: collect_def)

lemma collect_records:
  "all_actions (collect st hs) = all_actions st @ run_records (element_xpath_map st) hs"
proof (induction hs arbitrary: st)
  case Nil
  show ?case by (simp add: collect_def)
next
  case (Cons h hs)
  show ?case
    by (simp add: collect_Cons Cons.IH process_history_records process_history_fields)
qed

lemma example_records:
  "run_records Map.empty [first_history, second_history] =
     [\<lparr>detail_name = ''go_to_url'', detail_index = 0, element_details = Map.empty\<rparr>,
      \<lparr>detail_name = ''get_xpath_of_element'', detail_index = 1,
        element_details = [''index'' \<mapsto> PInt 7, ''xpath'' \<mapsto> PStr ''//div[@id=1]'']\<rparr>,
      \<lparr>detail_name = ''click_element'', detail_index = 0,
        element_details = [''index'' \<mapsto> PInt 7, ''xpath'' \<mapsto> PStr ''//div[2]'']\<rparr>]"
proof -
  have w1: "history_writes first_history =
      [(PInt 7, ''//div[@id=1]''), (PInt 5, ''//button[2], found near element 5'')]"
    by (simp add: history_writes_def first_history_def
      entry_writes_def visit_action_def discovery_example_def element_info_def
      match_xpath_attr_def content_write_item interaction_keys_def key_write_def)
  have r1: "resolve_action visit_action Map.empty = (Map.empty, Map.empty)"
    by (simp add: resolve_action_def visit_action_def interaction_keys_def)
  have r2: "resolve_action discovery_example Map.empty =
      ([PInt 7 \<mapsto> ''//div[@id=1]''], [''index'' \<mapsto> PInt 7, ''xpath'' \<mapsto> PStr ''//div[@id=1]''])"
    by (simp add: resolve_action_def discovery_example_def discovery_action_def
        attach_from_element_def element_info_def match_xpath_attr_def Let_def)
  have r3: "snd (resolve_action click_action
        [PInt 7 \<mapsto> ''//div[@id=1]'', PInt 5 \<mapsto> ''//button[2], found near element 5''])
      = [''index'' \<mapsto> PInt 7, ''xpath'' \<mapsto> PStr ''//div[2]'']"
    by (simp add: resolve_action_def click_action_def interaction_keys_def interaction_key_def
        attach_from_element_def element_info_def match_xpath_attr_def)
  have a1: "model_actions first_history = [visit_action, discovery_example]"
    and a2: "model_actions second_history = [click_action]"
    by (simp_all add: first_history_def second_history_def)
  have n: "action_name first_history 0 = ''go_to_url''"
    "action_name first_history (Suc 0) = ''get_xpath_of_element''"
    "action_name second_history 0 = ''click_element''"
    by (simp_all add: action_name_def first_history_def second_history_def)
  show ?thesis
    by (simp add: a1 a2 w1 r1 r2 r3 n apply_write_def)
qed

text \<open>
  C10. In a run of at least two scenarios whose agent runs all return, the stored record
  takes \<open>urls\<close>, \<open>action_names\<close>, \<open>errors\<close> and \<open>model_actions\<close> from the history of
  the last scenario, while \<open>extracted_content\<close> holds the items of all scenarios in order
  and \<open>detailed_actions\<close> holds the ActionRecords of all scenarios in order, each with
  its name, index and \<open>element_details\<close>.
\<close>

theorem record_last_history_fields:
  assumes "length hs = length (split_scenarios steps)"
    and "\<forall>j < length hs. agent j (split_scenarios steps ! j) = Inr (hs ! j)"
    and "2 \<le> length hs"
  shows "\<exists>r. stored_history (fst (execute_test agent steps sess)) = Some r
           \<and> er_urls r = urls (last hs)
           \<and> er_action_names r = action_names (last hs)
           \<and> er_errors r = errors (last hs)
           \<and> er_model_actions r = model_actions (last hs)
           \<and> er_extracted_content r = concat (map extracted_content hs)
           \<and> er_detailed_actions r = run_records Map.empty hs
           \<and> map detail_name (er_detailed_actions r)
               = concat (map (\<lambda>h. map (action_name h) [0..<length (model_actions h)]) hs)"
proof -
  from assms(3) have "hs \<noteq> []" by auto
  with execute_test_return [where agent = agent and steps = steps and hs = hs and sess = sess]
    assms(1,2)
  have e: "execute_test agent steps sess =
      (sess\<lparr>stored_history := Some (build_record sess (collect initial_state hs) (last hs))\<rparr>,
       None)"
    by simp
  have "all_actions (collect initial_state hs) = run_records Map.empty hs"
    by (simp add: collect_records initial_state_def)
  moreover have "map detail_name (all_actions (collect initial_state hs))
      = concat (map (\<lambda>h. map (action_name h) [0..<length (model_actions h)]) hs)"
    by (simp add: collect_fields initial_state_def)
  moreover have "all_extracted_content (collect initial_state hs) = concat (map extracted_content hs)"
    by (simp add: collect_fields initial_state_def)
  ultimately show ?thesis
    by (simp add: e build_record_def)
qed

theorem record_last_history_fields_witness:
  "\<exists>r. stored_history (fst (execute_test example_agent two_steps old_session)) = Some r
      \<and> er_urls r = [PStr ''https://example.org/next'']
      \<and> er_action_names r = [''click_element'']
      \<and> er_errors r = [PNone]
      \<and> er_model_actions r = [click_action]
      \<and> er_extracted_content r = [PStr xpath_item, PStr ''done'']
      \<and> er_detailed_actions r =
          [\<lparr>detail_name = ''go_to_url'', detail_index = 0, element_details = Map.empty\<rparr>,
           \<lparr>detail_name = ''get_xpath_of_element'', detail_index = 1,
             element_details = [''index'' \<mapsto> PInt 7, ''xpath'' \<mapsto> PStr ''//div[@id=1]'']\<rparr>,
           \<lparr>detail_name = ''click_element'', detail_index = 0,
             element_details = [''index'' \<mapsto> PInt 7, ''xpath'' \<mapsto> PStr ''//div[2]'']\<rparr>]"
proof -
  have "2 \<le> length [first_history, second_history]" by simp
  from record_last_history_fields [where agent = example_agent and steps = two_steps
      and hs = "[first_history, second_history]" and sess = old_session,
      OF example_run this]
  obtain r where r: "stored_history (fst (execute_test example_agent two_steps old_session)) = Some r"
    "er_urls r = urls (last [first_history, second_history])"
    "er_action_names r = action_names (last [first_history, second_history])"
    "er_errors r = errors (last [first_history, second_history])"
    "er_model_actions r = model_actions (last [first_history, second_history])"
    "er_extracted_content r = concat (map extracted_content [first_history, second_history])"
    "er_detailed_actions r = run_records Map.empty [first_history, second_history]"
    by blast
  from r(2-6) have "er_urls r = [PStr ''https://example.org/next'']"
    "er_action_names r = [''click_element'']" "er_errors r = [PNone]"
    "er_model_actions r = [click_action]"
    "er_extracted_content r = [PStr xpath_item, PStr ''done'']"
    by (simp_all add: first_history_def second_history_def)
  moreover from r(7) have "er_detailed_actions r =
      [\<lparr>detail_name = ''go_to_url'', detail_index = 0, element_details = Map.empty\<rparr>,
       \<lparr>detail_name = ''get_xpath_of_element'', detail_index = 1,
         element_details = [''index'' \<mapsto> PInt 7, ''xpath'' \<mapsto> PStr ''//div[@id=1]'']\<rparr>,
       \<lparr>detail_name = ''click_element'', detail_index = 0,
         element_details = [''index'' \<mapsto> PInt 7, ''xpath'' \<mapsto> PStr ''//div[2]'']\<rparr>]"
    by (simp only: example_records)
  ultimately show ?thesis using r(1) by simp
qed

end
